theory Spec2Isabelle
  imports Complex_Main "HOL-Library.Multiset" "HOL-Library.Sublist"
begin

section \<open>Values exchanged with the store\<close>

text \<open>
  Tasks reach the browser as parsed JSON. A property that is missing reads as
  \<open>undefined\<close>, modelled as \<open>None\<close>; a property that is there holds a JSON value.
  An object lists its own properties, each key once. Strings are byte lists here, where
  the program has UTF-16 code units.
\<close>

datatype json =
    JNull
  | JBool bool
  | JNum rat
  | JStr string
  | JArr "json list"
  | JObj "(string \<times> json) list"

text \<open>JavaScript's ToBoolean on the result of a property read.\<close>

fun truthy :: "json option \<Rightarrow> bool" where
  "truthy None = False"
| "truthy (Some JNull) = False"
| "truthy (Some (JBool b)) = b"
| "truthy (Some (JNum n)) = (n \<noteq> 0)"
| "truthy (Some (JStr s)) = (s \<noteq> [])"
| "truthy (Some (JArr xs)) = True"
| "truthy (Some (JObj kvs)) = True"

text \<open>ToBoolean on a field of type \<open>string | null\<close>: \<open>null\<close> and the empty string are falsy.\<close>

fun truthy_str :: "string option \<Rightarrow> bool" where
  "truthy_str None = False"
| "truthy_str (Some s) = (s \<noteq> [])"

text \<open>
  \<open>Number.prototype.toString\<close> on an integer id (ids are integers well inside the range
  in which a JavaScript number is exact).
\<close>

definition digit_char :: "nat \<Rightarrow> char" where
  "digit_char d = ''0123456789'' ! d"

fun digits :: "nat \<Rightarrow> string" where
  "digits n = (if n < 10 then [digit_char n] else digits (n div 10) @ [digit_char (n mod 10)])"

declare digits.simps [simp del]

definition toString :: "int \<Rightarrow> string" where
  "toString i = (if i < 0 then CHR ''-'' # digits (nat (- i)) else digits (nat i))"



text \<open>An HTTP request as the browser code builds it; \<open>JSON.stringify\<close> of a flat object.\<close>

record request =
  req_method :: string
  req_url :: string
  req_body :: json

definition JSON_stringify :: "(string \<times> string) list \<Rightarrow> json" where
  "JSON_stringify obj = JObj (map (\<lambda>(k, v). (k, JStr v)) obj)"

text \<open>Reading a key of a JSON object; anything that is not an object has no such key.\<close>

fun json_field :: "json \<Rightarrow> string \<Rightarrow> json option" where
  "json_field (JObj kvs) k = map_of kvs k"
| "json_field _ k = None"

section \<open>Shared types for task management (types.ts)\<close>

text \<open>
  \<open>TaskStatus\<close> and \<open>TaskPriority\<close> are unions of string literals; at run time a status
  is whatever string the fetched JSON holds, so the field is a string and the union is
  the list of its members.
\<close>

definition TaskStatus :: "string list" where
  "TaskStatus = [''inbox'', ''in_progress'', ''review'', ''done'']"

definition TaskPriority :: "string list" where
  "TaskPriority = [''low'', ''medium'', ''high'', ''critical'']"

record Task =
  task_id :: int
  requirement_id :: "int option"
  title :: string
  description :: "string option"
  status :: string
  priority :: string
  agent_id :: "string option"
  session_key :: "string option"
  due_at :: "string option"
  started_at :: "string option"
  completed_at :: "string option"
  tags :: "string list"
  metadata :: json
  created_at :: string
  updated_at :: string

section \<open>TaskBoard (task-board.tsx)\<close>

subsection \<open>Grouping by status\<close>

datatype js_error = TypeError

text \<open>
  \<open>buckets\<close> is an object literal with the four statuses as its own keys. Reading
  \<open>buckets[key]\<close> for another key walks the prototype chain: the names below are the
  properties every object inherits from \<open>Object.prototype\<close>, and reading one of them
  gives a function (or the prototype object), not \<open>undefined\<close>.
\<close>

definition Object_prototype_keys :: "string list" where
  "Object_prototype_keys =
     [''constructor'', ''hasOwnProperty'', ''isPrototypeOf'', ''propertyIsEnumerable'',
      ''toLocaleString'', ''toString'', ''valueOf'', ''__proto__'',
      ''__defineGetter__'', ''__defineSetter__'', ''__lookupGetter__'', ''__lookupSetter__'']"

type_synonym buckets = "string \<rightharpoonup> Task list"

definition empty_buckets :: buckets where
  "empty_buckets =
     [''inbox'' \<mapsto> [], ''in_progress'' \<mapsto> [], ''review'' \<mapsto> [], ''done'' \<mapsto> []]"

text \<open>
  One round of the \<open>forEach\<close> body:
  \<^verbatim>\<open>const bucket = buckets[task.status] ?? buckets.inbox; bucket.push(task)\<close>.
  The \<open>??\<close> falls back to the inbox only when the read gave \<open>undefined\<close>. An inherited
  property is neither \<open>undefined\<close> nor an array, so \<open>bucket.push\<close> is not a function
  and the call throws.
\<close>

definition push_task :: "buckets \<Rightarrow> Task \<Rightarrow> js_error + buckets" where
  "push_task buckets task =
     (case buckets (status task) of
        Some bucket \<Rightarrow> Inr (buckets(status task \<mapsto> bucket @ [task]))
      | None \<Rightarrow>
          if status task \<in> set Object_prototype_keys then Inl TypeError
          else (case buckets ''inbox'' of
                  Some bucket \<Rightarrow> Inr (buckets(''inbox'' \<mapsto> bucket @ [task]))
                | None \<Rightarrow> Inl TypeError))"

fun forEach_push :: "Task list \<Rightarrow> buckets \<Rightarrow> js_error + buckets" where
  "forEach_push [] buckets = Inr buckets"
| "forEach_push (task # tasks) buckets =
     (case push_task buckets task of
        Inl e \<Rightarrow> Inl e
      | Inr buckets' \<Rightarrow> forEach_push tasks buckets')"

definition grouped :: "Task list \<Rightarrow> js_error + buckets" where
  "grouped tasks = forEach_push tasks empty_buckets"

text \<open>The column a status is shown in: its own when it is one of the four, else the inbox.\<close>

definition column_of :: "string \<Rightarrow> string" where
  "column_of s = (if s \<in> set TaskStatus then s else ''inbox'')"


definition columnTasks :: "buckets \<Rightarrow> string \<Rightarrow> Task list" where
  \<comment> \<open>\<^verbatim>\<open>grouped[column.status] ?? []\<close> for one of the four columns\<close>
  "columnTasks g column_status = (case g column_status of Some l \<Rightarrow> l | None \<Rightarrow> [])"

subsection \<open>Review column sub-filters\<close>

datatype ReviewBucket = all | approval_needed | blocked

text \<open>
  \<^verbatim>\<open>task.metadata?.review_reason\<close>: the optional chaining gives \<open>undefined\<close> on a
  \<open>null\<close> metadata; a metadata that is not an object has no such property.
\<close>

definition review_reason :: "Task \<Rightarrow> json option" where
  "review_reason task = json_field (metadata task) ''review_reason''"

record review_counts =
  n_all :: nat
  n_approval_needed :: nat
  n_blocked :: nat

definition count_review :: "review_counts \<Rightarrow> Task \<Rightarrow> review_counts" where
  "count_review acc task =
     (let hasReview = review_reason task in
      if truthy hasReview then acc\<lparr>n_approval_needed := n_approval_needed acc + 1\<rparr>
      else acc\<lparr>n_blocked := n_blocked acc + 1\<rparr>)"

definition reviewCounts :: "string \<Rightarrow> Task list \<Rightarrow> review_counts option" where
  "reviewCounts column_status tasks =
     (if column_status = ''review''
      then Some (foldl count_review
                   \<lparr>n_all = length tasks, n_approval_needed = 0, n_blocked = 0\<rparr> tasks)
      else None)"

definition filteredTasks :: "string \<Rightarrow> ReviewBucket \<Rightarrow> Task list \<Rightarrow> Task list" where
  "filteredTasks column_status reviewBucket tasks =
     (if column_status = ''review'' \<and> reviewBucket \<noteq> all
      then filter (\<lambda>task.
             if reviewBucket = approval_needed then truthy (review_reason task)
             else if reviewBucket = blocked then \<not> truthy (review_reason task)
             else True) tasks
      else tasks)"

subsection \<open>Drag and drop\<close>

record board_state =
  draggingId :: "string option"
  activeColumn :: "string option"
  reviewBucket :: ReviewBucket

text \<open>What \<open>handleDragStart\<close> puts on the drag: the task's id and its current status.\<close>

record drag_payload =
  p_taskId :: "string option"
  p_status :: "string option"

definition handleDragStart :: "bool \<Rightarrow> Task \<Rightarrow> board_state \<Rightarrow> board_state \<times> drag_payload option" where
  "handleDragStart readOnly task ui =
     (if readOnly then (ui, None)
      else (ui\<lparr>draggingId := Some (toString (task_id task))\<rparr>,
            Some \<lparr>p_taskId = Some (toString (task_id task)), p_status = Some (status task)\<rparr>))"

text \<open>
  \<open>handleDrop(status)\<close>, with \<open>column_status\<close> for the column dropped on.
  \<open>JSON_parse\<close> stands for the platform's parser, cast to the payload type as the
  source does; \<open>None\<close> is a text on which the \<open>try\<close> block throws (the \<open>catch\<close>
  ignores it). The result is the new drag state and the call made to \<open>onTaskMove\<close>,
  if any.
\<close>

definition handleDrop ::
  "(string \<Rightarrow> drag_payload option) \<Rightarrow> bool \<Rightarrow> string \<Rightarrow> string \<Rightarrow> board_state
     \<Rightarrow> board_state \<times> (string \<times> string) option" where
  "handleDrop JSON_parse readOnly column_status raw ui =
     (if readOnly then (ui, None)
      else
        let ui' = ui\<lparr>activeColumn := None, draggingId := None\<rparr> in
        if raw = [] then (ui', None)
        else case JSON_parse raw of
               None \<Rightarrow> (ui', None)
             | Some payload \<Rightarrow>
                 if \<not> truthy_str (p_taskId payload) \<or> \<not> truthy_str (p_status payload)
                 then (ui', None)
                 else if p_status payload = Some column_status then (ui', None)
                 else (case p_taskId payload of
                         Some taskId \<Rightarrow> (ui', Some (taskId, column_status))
                       | None \<Rightarrow> (ui', None)))"

section \<open>Tasks page (page.tsx)\<close>

record page_state =
  tasks :: "Task list"
  isLoading :: bool
  error :: "string option"
  showCreate :: bool
  selectedTask :: "Task option"
  showDetail :: bool

subsection \<open>Moving a task\<close>

text \<open>
  The object built for the moved task in the optimistic update. \<open>now\<close> is the reading of
  the clock there.
\<close>

definition move_task :: "string \<Rightarrow> string \<Rightarrow> Task \<Rightarrow> Task" where
  "move_task now newStatus t =
     t\<lparr>status := newStatus,
       started_at :=
         (if newStatus = ''in_progress'' \<and> \<not> truthy_str (started_at t) then Some now
          else started_at t),
       completed_at := (if newStatus = ''done'' then Some now else completed_at t)\<rparr>"

definition optimistic_update :: "string \<Rightarrow> string \<Rightarrow> string \<Rightarrow> Task list \<Rightarrow> Task list" where
  "optimistic_update now taskId newStatus prev =
     map (\<lambda>t. if toString (task_id t) = taskId then move_task now newStatus t else t) prev"

text \<open>The body of the PATCH; \<open>now\<close> is the reading of the clock when it is built.\<close>

definition move_body :: "string \<Rightarrow> string \<Rightarrow> (string \<times> string) list" where
  "move_body now newStatus =
     [(''status'', newStatus)]
     @ (if newStatus = ''in_progress'' then [(''started_at'', now)] else [])
     @ (if newStatus = ''done'' then [(''completed_at'', now)] else [])"

definition handleTaskMove ::
  "string \<Rightarrow> string \<Rightarrow> string \<Rightarrow> string \<Rightarrow> page_state \<Rightarrow> page_state \<times> request" where
  "handleTaskMove now now' taskId newStatus st =
     (st\<lparr>tasks := optimistic_update now taskId newStatus (tasks st)\<rparr>,
      \<lparr>req_method = ''PATCH'', req_url = ''/api/tasks/'' @ taskId,
       req_body = JSON_stringify (move_body now' newStatus)\<rparr>)"

text \<open>
  A drop on the board of the page: \<open>handleDrop\<close>, and \<open>handleTaskMove\<close> when it calls
  \<open>onTaskMove\<close>. The result lists the requests sent to the repository.
\<close>

definition board_drop ::
  "(string \<Rightarrow> drag_payload option) \<Rightarrow> string \<Rightarrow> string \<Rightarrow> string \<Rightarrow> string
     \<Rightarrow> board_state \<times> page_state \<Rightarrow> (board_state \<times> page_state) \<times> request list" where
  "board_drop JSON_parse now now' column_status raw s =
     (case handleDrop JSON_parse False column_status raw (fst s) of
        (ui', None) \<Rightarrow> ((ui', snd s), [])
      | (ui', Some (taskId, newStatus)) \<Rightarrow>
          (case handleTaskMove now now' taskId newStatus (snd s) of
             (st', req) \<Rightarrow> ((ui', st'), [req])))"

subsection \<open>Polling\<close>

text \<open>
  What \<^verbatim>\<open>fetch("/api/tasks")\<close> followed by \<^verbatim>\<open>res.json()\<close> comes to: a rejection with
  its message, a response that is not ok, or the list of tasks.
\<close>

datatype fetch_outcome = Rejected string | NotOk | Fetched "Task list"

text \<open>\<^verbatim>\<open>const selectedTaskId = selectedTask?.id\<close>, computed at each render of the page.\<close>

definition selectedTaskId :: "page_state \<Rightarrow> int option" where
  "selectedTaskId st = map_option task_id (selectedTask st)"

text \<open>
  \<open>fetchTasks\<close> is a callback created at a render: it tests the \<open>selectedTaskId\<close> of that
  render, its first argument here, while its state updates apply to the state the page
  has when the fetch settles. The two differ when the selection changes while a fetch
  is on its way.
\<close>

definition fetchTasks :: "int option \<Rightarrow> fetch_outcome \<Rightarrow> page_state \<Rightarrow> page_state" where
  "fetchTasks captured outcome st =
     (case outcome of
        Rejected message \<Rightarrow> st\<lparr>error := Some message, isLoading := False\<rparr>
      | NotOk \<Rightarrow> st\<lparr>error := Some ''Failed to fetch tasks'', isLoading := False\<rparr>
      | Fetched data \<Rightarrow>
          let st1 = st\<lparr>tasks := data\<rparr>;
              st2 = (case captured of
                       None \<Rightarrow> st1
                     | Some i \<Rightarrow>
                         if i = 0 then st1
                         else (case find (\<lambda>t. task_id t = i) data of
                                 Some updated \<Rightarrow> st1\<lparr>selectedTask := Some updated\<rparr>
                               | None \<Rightarrow> st1))
          in st2\<lparr>error := None, isLoading := False\<rparr>)"

text \<open>
  A poll: the interval runs the callback of the latest render, so a refresh that starts
  in state \<open>st0\<close> captures the selection of \<open>st0\<close> and settles in a later state \<open>st\<close>.
\<close>

definition poll_refresh :: "page_state \<Rightarrow> fetch_outcome \<Rightarrow> page_state \<Rightarrow> page_state" where
  "poll_refresh st0 outcome st = fetchTasks (selectedTaskId st0) outcome st"

text \<open>
  The \<open>catch\<close> of \<open>handleTaskMove\<close>: when its \<open>fetch\<close> rejects, the page fetches the tasks
  again, with the \<open>fetchTasks\<close> the handler was created with.
\<close>

definition handleTaskMove_rejected ::
  "int option \<Rightarrow> fetch_outcome \<Rightarrow> page_state \<Rightarrow> page_state" where
  "handleTaskMove_rejected captured outcome st = fetchTasks captured outcome st"

section \<open>Task detail panel (task-detail.tsx)\<close>

text \<open>
  The panel renders nothing without a task; with one it renders the drawer for that
  task, open or closed as \<open>open\<close> says.
\<close>

definition TaskDetail :: "Task option \<Rightarrow> bool \<Rightarrow> (Task \<times> bool) option" where
  "TaskDetail task opn = (case task of None \<Rightarrow> None | Some t \<Rightarrow> Some (t, opn))"

definition handleUpdateStatus :: "Task option \<Rightarrow> string \<Rightarrow> request option" where
  "handleUpdateStatus task newStatus =
     (case task of
        None \<Rightarrow> None
      | Some t \<Rightarrow>
          Some \<lparr>req_method = ''PATCH'', req_url = ''/api/tasks/'' @ toString (task_id t),
                req_body = JSON_stringify [(''status'', newStatus)]\<rparr>)"

definition page_detail :: "page_state \<Rightarrow> (Task \<times> bool) option" where
  "page_detail st = TaskDetail (selectedTask st) (showDetail st)"

section \<open>Create-task dialog (create-task-dialog.tsx)\<close>

record dialog_state =
  form_title :: string
  form_description :: string
  form_status :: string
  form_priority :: string
  isSubmitting :: bool
  form_error :: "string option"



text \<open>\<open>handleSubmit\<close> after the \<open>fetch\<close> has settled; the flag says whether \<open>onCreated\<close> ran.\<close>

datatype submit_outcome = Submit_rejected string | Submit_not_ok | Submit_ok

definition handleSubmit_settled :: "submit_outcome \<Rightarrow> dialog_state \<Rightarrow> dialog_state \<times> bool" where
  "handleSubmit_settled outcome d =
     (case outcome of
        Submit_ok \<Rightarrow>
          (d\<lparr>form_title := [], form_description := [], form_status := ''inbox'',
             form_priority := ''medium'', isSubmitting := False\<rparr>, True)
      | Submit_not_ok \<Rightarrow>
          (d\<lparr>form_error := Some ''Failed to create task'', isSubmitting := False\<rparr>, False)
      | Submit_rejected message \<Rightarrow>
          (d\<lparr>form_error := Some message, isSubmitting := False\<rparr>, False))"

section \<open>The store: table \<open>api.tasks\<close> (init.sql) behind PostgREST\<close>

text \<open>
  A row of \<open>api.tasks\<close>. Instants are counted in microseconds; \<open>tags\<close> and \<open>metadata\<close> are
  \<open>jsonb\<close>. The enum columns hold one of the labels of their type, in the order in which
  \<open>CREATE TYPE\<close> lists them (\<open>TaskStatus\<close>, \<open>TaskPriority\<close> above).
\<close>

record task_row =
  row_id :: int
  row_requirement_id :: "int option"
  row_title :: string
  row_description :: "string option"
  row_status :: string
  row_priority :: string
  row_agent_id :: "string option"
  row_session_key :: "string option"
  row_due_at :: "int option"
  row_started_at :: "int option"
  row_completed_at :: "int option"
  row_tags :: json
  row_metadata :: json
  row_created_at :: int
  row_updated_at :: int

text \<open>
  What PostgREST answers: the status, the text of the body (for an error, the SQLSTATE
  of the error it reports) and the rows of the body.
\<close>

record pg_reply =
  pg_status :: nat
  pg_text :: string
  pg_rows :: "task_row list"

subsection \<open>\<open>GET /tasks?order=priority.desc,created_at.desc\<close>\<close>

fun index_of :: "'a list \<Rightarrow> 'a \<Rightarrow> nat" where
  "index_of [] x = 0"
| "index_of (y # ys) x = (if x = y then 0 else Suc (index_of ys x))"

text \<open>An enum value sorts by its position in the type's declaration.\<close>

definition priority_rank :: "string \<Rightarrow> nat" where
  "priority_rank p = index_of TaskPriority p"

text \<open>\<open>a\<close> may stand before \<open>b\<close> under \<open>ORDER BY priority DESC, created_at DESC\<close>.\<close>

definition listed_before :: "task_row \<Rightarrow> task_row \<Rightarrow> bool" where
  "listed_before a b =
     (priority_rank (row_priority b) < priority_rank (row_priority a)
      \<or> (priority_rank (row_priority a) = priority_rank (row_priority b)
          \<and> row_created_at b \<le> row_created_at a))"

fun insert_row :: "task_row \<Rightarrow> task_row list \<Rightarrow> task_row list" where
  "insert_row r [] = [r]"
| "insert_row r (x # xs) = (if listed_before r x then r # x # xs else x # insert_row r xs)"

text \<open>
  The sort of the query. SQL leaves the order of rows with equal keys open; this one
  keeps them in table order.
\<close>

definition order_rows :: "task_row list \<Rightarrow> task_row list" where
  "order_rows rows = foldr insert_row rows []"

definition postgrest_GET_tasks :: "task_row list \<Rightarrow> pg_reply" where
  "postgrest_GET_tasks rows = \<lparr>pg_status = 200, pg_text = [], pg_rows = order_rows rows\<rparr>"

subsection \<open>\<open>POST /tasks\<close>\<close>







subsection \<open>\<open>DELETE /tasks?id=eq.<id>\<close>\<close>

text \<open>
  The filter compares \<open>id\<close>, a \<open>BIGSERIAL\<close> column, with the text after \<open>eq.\<close>, which
  PostgreSQL reads with the input function of \<open>bigint\<close>. That function belongs to the
  database server, so the store takes it as an argument, \<open>int8in\<close>: it gives the number, or
  the SQLSTATE of the error raised (22P02 for text that is no integer, 22003 for an
  integer outside the 64-bit range).

  \<open>bigint_in\<close> below is that function on decimal notation: white space around the number
  is skipped, a sign may stand in front, at least one digit follows, and the value has to
  lie between \<open>-2^63\<close> and \<open>2^63 - 1\<close>. (Server versions from 16 on also read hexadecimal,
  octal and binary notation and underscores between digits.)
\<close>

definition pg_space :: "char \<Rightarrow> bool" where
  "pg_space c = (of_char c \<in> {9::nat, 10, 11, 12, 13, 32})"

definition is_digit :: "char \<Rightarrow> bool" where
  "is_digit c = (48 \<le> (of_char c :: nat) \<and> (of_char c :: nat) \<le> 57)"

definition digits_value :: "string \<Rightarrow> nat" where
  "digits_value ds = foldl (\<lambda>acc c. 10 * acc + (of_char c - 48)) 0 ds"

definition in_bigint_range :: "int \<Rightarrow> string + int" where
  "in_bigint_range v =
     (if - 9223372036854775808 \<le> v \<and> v \<le> 9223372036854775807 then Inr v else Inl ''22003'')"

definition unsigned_digits :: "string \<Rightarrow> string + nat" where
  "unsigned_digits ds =
     (if ds \<noteq> [] \<and> list_all is_digit ds then Inr (digits_value ds) else Inl ''22P02'')"

definition bigint_in :: "string \<Rightarrow> string + int" where
  "bigint_in s =
     (case rev (dropWhile pg_space (rev (dropWhile pg_space s))) of
        [] \<Rightarrow> Inl ''22P02''
      | c # cs \<Rightarrow>
          if c = CHR ''-'' then
            (case unsigned_digits cs of
               Inl e \<Rightarrow> Inl e
             | Inr n \<Rightarrow> in_bigint_range (- int n))
          else
            (case unsigned_digits (if c = CHR ''+'' then cs else c # cs) of
               Inl e \<Rightarrow> Inl e
             | Inr n \<Rightarrow> in_bigint_range (int n)))"


section \<open>API routes (api/tasks/route.ts, api/tasks/[id]/route.ts)\<close>

text \<open>
  The JSON a route answers with: the rows, \<open>{error: message}\<close> or \<open>{ok: true}\<close>. The
  argument of a route is what its \<open>try\<close> block came to: \<open>Inl message\<close> when something in
  it threw (the \<open>fetch\<close> to PostgREST, or reading a body that is not JSON), else the
  reply of PostgREST.
\<close>

datatype api_json = Data "task_row list" | Error string | Ok_true

record api_response =
  res_status :: nat
  res_json :: api_json

definition res_ok :: "pg_reply \<Rightarrow> bool" where
  "res_ok r = (200 \<le> pg_status r \<and> pg_status r \<le> 299)"

definition postgrest_error :: "pg_reply \<Rightarrow> api_response" where
  "postgrest_error r =
     \<lparr>res_status = pg_status r, res_json = Error (''PostgREST error: '' @ pg_text r)\<rparr>"

definition GET_route :: "string + pg_reply \<Rightarrow> api_response" where
  "GET_route res =
     (case res of
        Inl message \<Rightarrow> \<lparr>res_status = 502, res_json = Error message\<rparr>
      | Inr r \<Rightarrow>
          if \<not> res_ok r then postgrest_error r
          else \<lparr>res_status = 200, res_json = Data (pg_rows r)\<rparr>)"



text \<open>The repository operations: a route in front of the store.\<close>

definition listTasks :: "task_row list \<Rightarrow> api_response" where
  "listTasks rows = GET_route (Inr (postgrest_GET_tasks rows))"



section \<open>Sample values\<close>

definition sample_task :: "int \<Rightarrow> string \<Rightarrow> Task" where
  "sample_task i s =
     \<lparr>task_id = i, requirement_id = None, title = ''Implement X'', description = None,
      status = s, priority = ''medium'', agent_id = None, session_key = None,
      due_at = None, started_at = None, completed_at = None, tags = [],
      metadata = JObj [], created_at = ''2024-05-01T10:00:00+00:00'',
      updated_at = ''2024-05-01T10:00:00+00:00''\<rparr>"

definition sample_row :: "int \<Rightarrow> string \<Rightarrow> int \<Rightarrow> task_row" where
  "sample_row i p c =
     \<lparr>row_id = i, row_requirement_id = None, row_title = ''Implement X'',
      row_description = None, row_status = ''inbox'', row_priority = p,
      row_agent_id = None, row_session_key = None, row_due_at = None,
      row_started_at = None, row_completed_at = None, row_tags = JArr [],
      row_metadata = JObj [], row_created_at = c, row_updated_at = c\<rparr>"

definition sample_page :: "Task list \<Rightarrow> Task option \<Rightarrow> bool \<Rightarrow> page_state" where
  "sample_page ts sel opn =
     \<lparr>tasks = ts, isLoading = False, error = None, showCreate = False,
      selectedTask = sel, showDetail = opn\<rparr>"

definition sample_board :: board_state where
  "sample_board = \<lparr>draggingId = Some ''7'', activeColumn = Some ''review'', reviewBucket = all\<rparr>"



section \<open>Properties\<close>

lemma forEach_push_filter:
  assumes "\<forall>t\<in>set ts. status t \<notin> set Object_prototype_keys"
    and "dom b = set TaskStatus"
  shows "forEach_push ts b =
           Inr (\<lambda>k. map_option (\<lambda>l. l @ filter (\<lambda>t. column_of (status t) = k) ts) (b k))"
  using assms
proof (induction ts arbitrary: b)
  case Nil
  have "(\<lambda>k. map_option (\<lambda>l. l) (b k)) = b"
    by (rule ext) (simp add: option.map_ident)
  then show ?case by simp
next
  case (Cons t ts)
  let ?k = "column_of (status t)"
  have kin: "?k \<in> set TaskStatus"
    by (simp add: column_of_def TaskStatus_def)
  then obtain l where l: "b ?k = Some l"
    using Cons.prems(2) by auto
  have notproto: "status t \<notin> set Object_prototype_keys"
    using Cons.prems(1) by simp
  have inb: "''inbox'' \<in> dom b"
    using Cons.prems(2) by (simp add: TaskStatus_def)
  have step: "push_task b t = Inr (b(?k \<mapsto> l @ [t]))"
  proof (cases "status t \<in> set TaskStatus")
    case True
    then show ?thesis using l by (simp add: push_task_def column_of_def)
  next
    case False
    then have "b (status t) = None"
      using Cons.prems(2) by (metis domIff)
    then show ?thesis
      using False l notproto by (simp add: push_task_def column_of_def)
  qed
  have dom': "dom (b(?k \<mapsto> l @ [t])) = set TaskStatus"
    using Cons.prems(2) kin by auto
  have rest: "\<forall>t\<in>set ts. status t \<notin> set Object_prototype_keys"
    using Cons.prems(1) by simp
  have "forEach_push (t # ts) b = forEach_push ts (b(?k \<mapsto> l @ [t]))"
    by (simp add: step)
  also have "\<dots> = Inr (\<lambda>k. map_option (\<lambda>l'. l' @ filter (\<lambda>t. column_of (status t) = k) ts)
                       ((b(?k \<mapsto> l @ [t])) k))"
    by (rule Cons.IH [OF rest dom'])
  also have "(\<lambda>k. map_option (\<lambda>l'. l' @ filter (\<lambda>t. column_of (status t) = k) ts)
                       ((b(?k \<mapsto> l @ [t])) k))
           = (\<lambda>k. map_option (\<lambda>l'. l' @ filter (\<lambda>t. column_of (status t) = k) (t # ts)) (b k))"
    by (rule ext) (use l in auto)
  finally show ?case .
qed


lemma TaskStatus_not_inherited: "s \<in> set TaskStatus \<Longrightarrow> s \<notin> set Object_prototype_keys"
  by (auto simp: TaskStatus_def Object_prototype_keys_def)

lemma dom_empty_buckets: "dom empty_buckets = set TaskStatus"
  by (auto simp: empty_buckets_def TaskStatus_def)

lemma grouped_filter:
  assumes "\<forall>t\<in>set ts. status t \<notin> set Object_prototype_keys"
  shows "grouped ts =
           Inr (\<lambda>k. if k \<in> set TaskStatus
                     then Some (filter (\<lambda>t. column_of (status t) = k) ts) else None)"
proof -
  have "(\<lambda>k. map_option (\<lambda>l. l @ filter (\<lambda>t. column_of (status t) = k) ts) (empty_buckets k))
      = (\<lambda>k. if k \<in> set TaskStatus
              then Some (filter (\<lambda>t. column_of (status t) = k) ts) else None)"
    by (rule ext) (simp add: empty_buckets_def TaskStatus_def)
  then show ?thesis
    unfolding grouped_def
    using forEach_push_filter [OF assms dom_empty_buckets] by simp
qed

lemma mset_by_column:
  "mset (filter (\<lambda>t. column_of (status t) = ''inbox'') ts
         @ filter (\<lambda>t. column_of (status t) = ''in_progress'') ts
         @ filter (\<lambda>t. column_of (status t) = ''review'') ts
         @ filter (\<lambda>t. column_of (status t) = ''done'') ts) = mset ts"
proof (induction ts)
  case Nil
  show ?case by simp
next
  case (Cons t ts)
  have "column_of (status t) \<in> set TaskStatus"
    by (simp add: column_of_def TaskStatus_def)
  then consider "column_of (status t) = ''inbox''" | "column_of (status t) = ''in_progress''"
    | "column_of (status t) = ''review''" | "column_of (status t) = ''done''"
    by (auto simp: TaskStatus_def)
  then show ?case
    using Cons.IH by cases simp_all
qed

text \<open>
  C1. For tasks of type \<open>Task\<close> (every status one of the four), the grouping of the board
  returns four buckets; the bucket of a status is exactly the input tasks of that
  status, in input order; the four buckets together hold every input task as often as
  the input does (none lost, none duplicated); and a task found in a bucket has that
  bucket's status, so no task is in two buckets.
\<close>

theorem grouped_partition:
  assumes "\<forall>t\<in>set ts. status t \<in> set TaskStatus"
  shows "\<exists>g. grouped ts = Inr g
           \<and> dom g = set TaskStatus
           \<and> (\<forall>s\<in>set TaskStatus. columnTasks g s = filter (\<lambda>t. status t = s) ts)
           \<and> (\<forall>s\<in>set TaskStatus. subseq (columnTasks g s) ts)
           \<and> (\<forall>s t. t \<in> set (columnTasks g s) \<longrightarrow> status t = s)
           \<and> mset (columnTasks g ''inbox'' @ columnTasks g ''in_progress''
                    @ columnTasks g ''review'' @ columnTasks g ''done'') = mset ts"
proof -
  let ?g = "\<lambda>k. if k \<in> set TaskStatus
                 then Some (filter (\<lambda>t. column_of (status t) = k) ts) else None"
  have typed: "\<And>t. t \<in> set ts \<Longrightarrow> column_of (status t) = status t"
    using assms by (simp add: column_of_def)
  have col: "\<And>k. filter (\<lambda>t. column_of (status t) = k) ts = filter (\<lambda>t. status t = k) ts"
    by (rule filter_cong) (simp_all add: typed)
  have "\<forall>t\<in>set ts. status t \<notin> set Object_prototype_keys"
    using assms TaskStatus_not_inherited by blast
  then have g: "grouped ts = Inr ?g"
    by (rule grouped_filter)
  have dom: "dom ?g = set TaskStatus"
    by (auto split: if_splits)
  have cols: "\<And>s. s \<in> set TaskStatus \<Longrightarrow> columnTasks ?g s = filter (\<lambda>t. status t = s) ts"
    by (simp add: columnTasks_def col)
  have sub: "\<And>s. s \<in> set TaskStatus \<Longrightarrow> subseq (columnTasks ?g s) ts"
    by (simp add: cols)
  have only: "\<And>s t. t \<in> set (columnTasks ?g s) \<Longrightarrow> status t = s"
    by (auto simp: columnTasks_def col split: if_splits)
  have "mset (columnTasks ?g ''inbox'' @ columnTasks ?g ''in_progress''
              @ columnTasks ?g ''review'' @ columnTasks ?g ''done'') = mset ts"
    using mset_by_column [of ts] by (simp add: columnTasks_def TaskStatus_def)
  with g dom cols sub only show ?thesis
    by blast
qed

theorem grouped_partition_witness:
  "list_all (\<lambda>t. status t \<in> set TaskStatus)
     [sample_task 1 ''done'', sample_task 2 ''inbox'', sample_task 3 ''done'']
   \<and> (\<exists>g. grouped [sample_task 1 ''done'', sample_task 2 ''inbox'', sample_task 3 ''done'']
             = Inr g
          \<and> columnTasks g ''done'' = [sample_task 1 ''done'', sample_task 3 ''done'']
          \<and> columnTasks g ''inbox'' = [sample_task 2 ''inbox''])"
proof -
  let ?ts = "[sample_task 1 ''done'', sample_task 2 ''inbox'', sample_task 3 ''done'']"
  have typed: "\<forall>t\<in>set ?ts. status t \<in> set TaskStatus"
    by (simp add: sample_task_def TaskStatus_def)
  from grouped_partition [OF typed] obtain g where
    g: "grouped ?ts = Inr g"
    and cols: "\<forall>s\<in>set TaskStatus. columnTasks g s = filter (\<lambda>t. status t = s) ?ts"
    by blast
  have "columnTasks g ''done'' = [sample_task 1 ''done'', sample_task 3 ''done'']"
    using cols by (simp add: TaskStatus_def sample_task_def)
  moreover have "columnTasks g ''inbox'' = [sample_task 2 ''inbox'']"
    using cols by (simp add: TaskStatus_def sample_task_def)
  ultimately show ?thesis
    using g typed by (auto simp: list_all_iff)
qed

lemma toString_7: "toString 7 = ''7''"
  by (simp add: toString_def digits.simps digit_char_def)


text \<open>
  For every other unknown status the fallback is taken. When no status of the input
  names an inherited property of \<open>Object.prototype\<close>, the grouping returns; every task
  whose status is not one of the four is in the inbox bucket, next to the tasks of
  status inbox and in input order; the other buckets hold the tasks of their status; and
  the four buckets together hold every input task exactly as often as the input does.
\<close>

lemma grouped_unknown_status:
  assumes "\<forall>t\<in>set ts. status t \<notin> set Object_prototype_keys"
  shows "\<exists>g. grouped ts = Inr g
           \<and> dom g = set TaskStatus
           \<and> columnTasks g ''inbox''
               = filter (\<lambda>t. status t = ''inbox'' \<or> status t \<notin> set TaskStatus) ts
           \<and> columnTasks g ''in_progress'' = filter (\<lambda>t. status t = ''in_progress'') ts
           \<and> columnTasks g ''review'' = filter (\<lambda>t. status t = ''review'') ts
           \<and> columnTasks g ''done'' = filter (\<lambda>t. status t = ''done'') ts
           \<and> mset (columnTasks g ''inbox'' @ columnTasks g ''in_progress''
                    @ columnTasks g ''review'' @ columnTasks g ''done'') = mset ts"
proof -
  let ?g = "\<lambda>k. if k \<in> set TaskStatus
                 then Some (filter (\<lambda>t. column_of (status t) = k) ts) else None"
  have g: "grouped ts = Inr ?g"
    using assms by (rule grouped_filter)
  have dom: "dom ?g = set TaskStatus"
    by (auto split: if_splits)
  have inbox: "columnTasks ?g ''inbox''
      = filter (\<lambda>t. status t = ''inbox'' \<or> status t \<notin> set TaskStatus) ts"
    by (auto simp: columnTasks_def column_of_def TaskStatus_def intro!: filter_cong)
  have other: "\<And>s. s \<in> {''in_progress'', ''review'', ''done''}
      \<Longrightarrow> columnTasks ?g s = filter (\<lambda>t. status t = s) ts"
    by (auto simp: columnTasks_def column_of_def TaskStatus_def intro!: filter_cong)
  have "mset (columnTasks ?g ''inbox'' @ columnTasks ?g ''in_progress''
              @ columnTasks ?g ''review'' @ columnTasks ?g ''done'') = mset ts"
    using mset_by_column [of ts] by (simp add: columnTasks_def TaskStatus_def)
  with g dom inbox other show ?thesis
    by blast
qed

lemma grouped_unknown_status_sample:
  "list_all (\<lambda>t. status t \<notin> set Object_prototype_keys)
     [sample_task 1 ''archived'', sample_task 2 ''done'', sample_task 3 ''inbox'']
   \<and> (\<exists>g. grouped [sample_task 1 ''archived'', sample_task 2 ''done'', sample_task 3 ''inbox'']
             = Inr g
          \<and> columnTasks g ''inbox'' = [sample_task 1 ''archived'', sample_task 3 ''inbox'']
          \<and> columnTasks g ''done'' = [sample_task 2 ''done''])"
proof -
  let ?ts = "[sample_task 1 ''archived'', sample_task 2 ''done'', sample_task 3 ''inbox'']"
  have ok: "\<forall>t\<in>set ?ts. status t \<notin> set Object_prototype_keys"
    by (simp add: sample_task_def Object_prototype_keys_def)
  from grouped_unknown_status [OF ok] obtain g where
    g: "grouped ?ts = Inr g"
    and inbox: "columnTasks g ''inbox''
               = filter (\<lambda>t. status t = ''inbox'' \<or> status t \<notin> set TaskStatus) ?ts"
    and dn: "columnTasks g ''done'' = filter (\<lambda>t. status t = ''done'') ?ts"
    by blast
  have "columnTasks g ''inbox'' = [sample_task 1 ''archived'', sample_task 3 ''inbox'']"
    using inbox by (simp add: TaskStatus_def sample_task_def)
  moreover have "columnTasks g ''done'' = [sample_task 2 ''done'']"
    using dn by (simp add: sample_task_def)
  ultimately show ?thesis
    using g ok by (auto simp: list_all_iff)
qed

lemma foldl_count_review:
  "foldl count_review acc ts =
     acc\<lparr>n_approval_needed := n_approval_needed acc + length (filter (\<lambda>t. truthy (review_reason t)) ts),
         n_blocked := n_blocked acc + length (filter (\<lambda>t. \<not> truthy (review_reason t)) ts)\<rparr>"
  by (induction ts arbitrary: acc) (simp_all add: count_review_def)

lemma falsy_cases:
  "(\<not> truthy v) =
     (v = None \<or> v = Some JNull \<or> v = Some (JBool False) \<or> v = Some (JNum 0) \<or> v = Some (JStr []))"
  by (cases v rule: truthy.cases) auto

text \<open>
  C3, as stated, fails where it says that a review task is in \<open>blocked\<close> exactly when
  \<open>metadata.review_reason\<close> is absent: a task whose \<open>review_reason\<close> is there but falsy
  (here the empty string) is in \<open>blocked\<close> too.
\<close>

theorem review_blocked_counterexample:
  "\<not> (\<forall>t. (t \<in> set (filteredTasks ''review'' blocked [t])) = (review_reason t = None))"
proof
  assume a: "\<forall>t. (t \<in> set (filteredTasks ''review'' blocked [t])) = (review_reason t = None)"
  let ?t = "(sample_task 1 ''review'')\<lparr>metadata := JObj [(''review_reason'', JStr [])]\<rparr>"
  have "?t \<in> set (filteredTasks ''review'' blocked [?t])"
    by (simp add: filteredTasks_def review_reason_def)
  moreover have "review_reason ?t \<noteq> None"
    by (simp add: review_reason_def)
  ultimately show False using spec [OF a, of ?t] by simp
qed

text \<open>
  C3, amended. Of the tasks of the review column, the sub-filter \<open>approval_needed\<close> keeps
  exactly those whose \<open>metadata.review_reason\<close> is truthy and \<open>blocked\<close> exactly those
  whose \<open>review_reason\<close> is missing or falsy (\<open>null\<close>, \<open>false\<close>, \<open>0\<close>, the empty string);
  every task of the column is in exactly one of the two, and the two together are the
  column. \<open>all\<close> is the whole column, and the three counts shown do not depend on the
  selected sub-filter: \<open>all\<close> counts the column, the others the two sub-buckets. The
  classification reads the metadata only, and a filtered list is a subsequence of the
  column with its tasks as they were.
\<close>

theorem review_sub_buckets:
  "filteredTasks ''review'' approval_needed ts = filter (\<lambda>t. truthy (review_reason t)) ts
   \<and> filteredTasks ''review'' blocked ts = filter (\<lambda>t. \<not> truthy (review_reason t)) ts
   \<and> (\<forall>t. (\<not> truthy (review_reason t)) =
           (review_reason t = None \<or> review_reason t = Some JNull
            \<or> review_reason t = Some (JBool False) \<or> review_reason t = Some (JNum 0)
            \<or> review_reason t = Some (JStr [])))
   \<and> (\<forall>t\<in>set ts. (t \<in> set (filteredTasks ''review'' approval_needed ts))
                  \<noteq> (t \<in> set (filteredTasks ''review'' blocked ts)))
   \<and> mset (filteredTasks ''review'' approval_needed ts)
       + mset (filteredTasks ''review'' blocked ts) = mset ts
   \<and> filteredTasks ''review'' all ts = ts
   \<and> reviewCounts ''review'' ts =
       Some \<lparr>n_all = length ts,
             n_approval_needed = length (filteredTasks ''review'' approval_needed ts),
             n_blocked = length (filteredTasks ''review'' blocked ts)\<rparr>
   \<and> (\<forall>t t'. metadata t = metadata t' \<longrightarrow> review_reason t = review_reason t')
   \<and> (\<forall>b. subseq (filteredTasks ''review'' b ts) ts)"
proof -
  have a: "filteredTasks ''review'' approval_needed ts = filter (\<lambda>t. truthy (review_reason t)) ts"
    by (simp add: filteredTasks_def)
  have b: "filteredTasks ''review'' blocked ts = filter (\<lambda>t. \<not> truthy (review_reason t)) ts"
    by (simp add: filteredTasks_def)
  have c: "filteredTasks ''review'' all ts = ts"
    by (simp add: filteredTasks_def)
  have one: "\<forall>t\<in>set ts. (t \<in> set (filteredTasks ''review'' approval_needed ts))
                  \<noteq> (t \<in> set (filteredTasks ''review'' blocked ts))"
    by (simp add: a b)
  have un: "mset (filteredTasks ''review'' approval_needed ts)
       + mset (filteredTasks ''review'' blocked ts) = mset ts"
    by (simp add: a b)
  have cnt: "reviewCounts ''review'' ts =
       Some \<lparr>n_all = length ts,
             n_approval_needed = length (filteredTasks ''review'' approval_needed ts),
             n_blocked = length (filteredTasks ''review'' blocked ts)\<rparr>"
    by (simp add: reviewCounts_def foldl_count_review a b)
  have meta: "\<forall>t t'. metadata t = metadata t' \<longrightarrow> review_reason t = review_reason t'"
    by (simp add: review_reason_def)
  have sub: "\<forall>b. subseq (filteredTasks ''review'' b ts) ts"
    by (simp add: filteredTasks_def)
  show ?thesis
    using a b c one un cnt meta sub falsy_cases by blast
qed

theorem review_sub_buckets_witness:
  "filteredTasks ''review'' approval_needed
     [(sample_task 1 ''review'')\<lparr>metadata := JObj [(''review_reason'', JStr ''needs sign-off'')]\<rparr>,
      (sample_task 2 ''review'')\<lparr>metadata := JObj [(''review_reason'', JNull)]\<rparr>,
      sample_task 3 ''review'']
   = [(sample_task 1 ''review'')\<lparr>metadata := JObj [(''review_reason'', JStr ''needs sign-off'')]\<rparr>]"
proof -
  let ?ts = "[(sample_task 1 ''review'')\<lparr>metadata := JObj [(''review_reason'', JStr ''needs sign-off'')]\<rparr>,
      (sample_task 2 ''review'')\<lparr>metadata := JObj [(''review_reason'', JNull)]\<rparr>,
      sample_task 3 ''review'']"
  have "filteredTasks ''review'' approval_needed ?ts = filter (\<lambda>t. truthy (review_reason t)) ?ts"
    using review_sub_buckets [of ?ts] by blast
  then show ?thesis
    by (simp add: review_reason_def sample_task_def)
qed

lemma handleDrop_same_status:
  assumes "JSON_parse raw = Some payload" and "p_status payload = Some column_status"
  shows "handleDrop JSON_parse readOnly column_status raw ui =
           ((if readOnly then ui else ui\<lparr>activeColumn := None, draggingId := None\<rparr>), None)"
  using assms by (simp add: handleDrop_def Let_def)

lemma handleDrop_call:
  assumes "snd (handleDrop JSON_parse readOnly column_status raw ui) = Some (taskId, newStatus)"
  shows "\<not> readOnly \<and> newStatus = column_status
         \<and> (\<exists>payload. JSON_parse raw = Some payload \<and> p_taskId payload = Some taskId
                \<and> p_status payload \<noteq> Some column_status)"
  using assms
  by (auto simp: handleDrop_def Let_def split: if_splits option.splits)

text \<open>
  C4. A drop whose payload carries the status of the column dropped on makes no call to
  \<open>onTaskMove\<close>; on the page that means no request to the repository and the page state
  (the tasks, hence the grouping) as it was, the board only clearing its drag highlight
  as at every drop. This is the case of a task dragged from a column and dropped on the
  column of its current status. And whenever \<open>handleDrop\<close> does call \<open>onTaskMove\<close>, the
  payload's status differs from the target column's.
\<close>

theorem drop_on_own_column:
  "(JSON_parse raw = Some payload \<and> p_status payload = Some column_status \<longrightarrow>
      snd (handleDrop JSON_parse readOnly column_status raw ui) = None
      \<and> board_drop JSON_parse now now' column_status raw (ui, st)
          = ((ui\<lparr>activeColumn := None, draggingId := None\<rparr>, st), []))
   \<and> (handleDragStart False task ui0 = (ui1, Some payload) \<and> JSON_parse raw = Some payload \<longrightarrow>
      board_drop JSON_parse now now' (status task) raw (ui, st)
          = ((ui\<lparr>activeColumn := None, draggingId := None\<rparr>, st), []))
   \<and> (\<forall>taskId newStatus.
        snd (handleDrop JSON_parse readOnly column_status raw ui) = Some (taskId, newStatus) \<longrightarrow>
        \<not> readOnly \<and> newStatus = column_status
        \<and> (\<exists>p. JSON_parse raw = Some p \<and> p_taskId p = Some taskId
               \<and> p_status p \<noteq> Some column_status))"
proof -
  have same: "snd (handleDrop JSON_parse readOnly column_status raw ui) = None"
    if "JSON_parse raw = Some payload" "p_status payload = Some column_status"
    using that by (simp add: handleDrop_same_status)
  have board: "board_drop JSON_parse now now' c raw (ui, st)
          = ((ui\<lparr>activeColumn := None, draggingId := None\<rparr>, st), [])"
    if "JSON_parse raw = Some payload" "p_status payload = Some c" for c
    using that by (simp add: board_drop_def handleDrop_same_status)
  have start: "p_status payload = Some (status task)"
    if "handleDragStart False task ui0 = (ui1, Some payload)"
    using that by (auto simp: handleDragStart_def)
  show ?thesis
    using same board start handleDrop_call [of JSON_parse readOnly column_status raw ui]
    by blast
qed

theorem drop_on_own_column_witness:
  "p_status \<lparr>p_taskId = Some ''7'', p_status = Some ''review''\<rparr> = Some ''review''
   \<and> snd (handleDrop (\<lambda>raw. Some \<lparr>p_taskId = Some ''7'', p_status = Some ''review''\<rparr>)
           False ''done'' ''{\"taskId\":\"7\",\"status\":\"review\"}'' sample_board)
       = Some (''7'', ''done'')
   \<and> board_drop (\<lambda>raw. Some \<lparr>p_taskId = Some ''7'', p_status = Some ''review''\<rparr>)
      ''2024-06-01T12:00:00.000Z'' ''2024-06-01T12:00:00.001Z'' ''review''
      ''{\"taskId\":\"7\",\"status\":\"review\"}''
      (sample_board, sample_page [sample_task 7 ''review''] None False)
   = ((sample_board\<lparr>activeColumn := None, draggingId := None\<rparr>,
       sample_page [sample_task 7 ''review''] None False), [])"
  using drop_on_own_column
    [of "\<lambda>raw. Some \<lparr>p_taskId = Some ''7'', p_status = Some ''review''\<rparr>"
        "''{\"taskId\":\"7\",\"status\":\"review\"}''"
        "\<lparr>p_taskId = Some ''7'', p_status = Some ''review''\<rparr>" "''review''"]
  by (simp add: handleDrop_def)

lemma json_field_move_body_completed_at:
  "json_field (JSON_stringify (move_body now newStatus)) ''completed_at''
     = (if newStatus = ''done'' then Some (JStr now) else None)"
  by (simp add: JSON_stringify_def move_body_def)

lemma json_field_move_body_started_at:
  "json_field (JSON_stringify (move_body now newStatus)) ''started_at''
     = (if newStatus = ''in_progress'' then Some (JStr now) else None)"
  by (simp add: JSON_stringify_def move_body_def)

lemma completed_at_move_task:
  "completed_at (move_task now newStatus t)
     = (if newStatus = ''done'' then Some now else completed_at t)"
  by (simp add: move_task_def)

text \<open>
  C2 at a task that already has a \<open>started_at\<close> and is moved to \<open>in_progress\<close>: the
  optimistic update keeps the old \<open>started_at\<close> (its guard \<open>!t.started_at\<close> fails), but the
  PATCH body carries \<open>started_at\<close> set to the clock's reading, because the body is built
  under the test on the new status alone.
\<close>

theorem move_patch_overwrites_started_at:
  "map started_at
     (tasks (fst (handleTaskMove ''2024-06-01T12:00:00.000Z'' ''2024-06-01T12:00:00.001Z''
        ''7'' ''in_progress''
        (sample_page [(sample_task 7 ''review'')\<lparr>started_at := Some ''2024-05-02T08:00:00+00:00''\<rparr>]
           None False))))
     = [Some ''2024-05-02T08:00:00+00:00'']
   \<and> json_field
       (req_body (snd (handleTaskMove ''2024-06-01T12:00:00.000Z'' ''2024-06-01T12:00:00.001Z''
        ''7'' ''in_progress''
        (sample_page [(sample_task 7 ''review'')\<lparr>started_at := Some ''2024-05-02T08:00:00+00:00''\<rparr>]
           None False))))
       ''started_at''
     = Some (JStr ''2024-06-01T12:00:00.001Z'')"
  by (simp add: handleTaskMove_def optimistic_update_def move_task_def sample_page_def
      sample_task_def toString_7 json_field_move_body_started_at)

text \<open>
  C8. A move to a status other than \<open>done\<close> leaves the \<open>completed_at\<close> of every task of
  the optimistic state as it was and sends a PATCH without a \<open>completed_at\<close> key. For
  every move, a task that had a \<open>completed_at\<close> still has one afterwards, and the PATCH
  never carries \<open>completed_at: null\<close>. The PATCH of the detail panel's status buttons
  has no \<open>completed_at\<close> key either.
\<close>

theorem completed_at_never_cleared:
  "(newStatus \<noteq> ''done'' \<longrightarrow>
      map completed_at (tasks (fst (handleTaskMove now now' taskId newStatus st)))
        = map completed_at (tasks st)
      \<and> json_field (req_body (snd (handleTaskMove now now' taskId newStatus st))) ''completed_at''
        = None)
   \<and> list_all2 (\<lambda>t t'. completed_at t \<noteq> None \<longrightarrow> completed_at t' \<noteq> None)
        (tasks st) (tasks (fst (handleTaskMove now now' taskId newStatus st)))
   \<and> json_field (req_body (snd (handleTaskMove now now' taskId newStatus st))) ''completed_at''
        \<noteq> Some JNull
   \<and> (\<forall>req. handleUpdateStatus task newStatus = Some req \<longrightarrow>
          json_field (req_body req) ''completed_at'' = None)"
proof -
  have keep: "map completed_at (optimistic_update now taskId newStatus ts) = map completed_at ts"
    if "newStatus \<noteq> ''done''" for ts
    using that by (simp add: optimistic_update_def completed_at_move_task)
  have set: "list_all2 (\<lambda>t t'. completed_at t \<noteq> None \<longrightarrow> completed_at t' \<noteq> None)
               ts (optimistic_update now taskId newStatus ts)" for ts
    by (simp add: optimistic_update_def list_all2_map2 list_all2_same completed_at_move_task)
  have body: "json_field (req_body (snd (handleTaskMove now now' taskId newStatus st)))
                ''completed_at'' = (if newStatus = ''done'' then Some (JStr now') else None)"
    by (simp add: handleTaskMove_def json_field_move_body_completed_at)
  have detail: "\<forall>req. handleUpdateStatus task newStatus = Some req \<longrightarrow>
          json_field (req_body req) ''completed_at'' = None"
    by (auto simp: handleUpdateStatus_def JSON_stringify_def split: option.splits)
  have tasks': "tasks (fst (handleTaskMove now now' taskId newStatus st))
                  = optimistic_update now taskId newStatus (tasks st)"
    by (simp add: handleTaskMove_def)
  show ?thesis
    using keep [of "tasks st"] set [of "tasks st"] body detail
    by (simp add: tasks')
qed

theorem completed_at_never_cleared_witness:
  "''inbox'' \<noteq> ''done''
   \<and> map completed_at
       (tasks (fst (handleTaskMove ''2024-06-01T12:00:00.000Z'' ''2024-06-01T12:00:00.001Z''
          ''7'' ''inbox''
          (sample_page [(sample_task 7 ''done'')\<lparr>completed_at := Some ''2024-05-03T09:00:00+00:00''\<rparr>]
             None False))))
     = [Some ''2024-05-03T09:00:00+00:00'']
   \<and> status (hd
       (tasks (fst (handleTaskMove ''2024-06-01T12:00:00.000Z'' ''2024-06-01T12:00:00.001Z''
          ''7'' ''inbox''
          (sample_page [(sample_task 7 ''done'')\<lparr>completed_at := Some ''2024-05-03T09:00:00+00:00''\<rparr>]
             None False))))) = ''inbox''"
proof -
  let ?st = "sample_page [(sample_task 7 ''done'')\<lparr>completed_at := Some ''2024-05-03T09:00:00+00:00''\<rparr>]
             None False"
  have "map completed_at
       (tasks (fst (handleTaskMove ''2024-06-01T12:00:00.000Z'' ''2024-06-01T12:00:00.001Z''
          ''7'' ''inbox'' ?st))) = map completed_at (tasks ?st)"
    using completed_at_never_cleared
      [of "''inbox''" "''2024-06-01T12:00:00.000Z''" "''2024-06-01T12:00:00.001Z''" "''7''" ?st]
    by simp
  then show ?thesis
    by (simp add: sample_page_def sample_task_def handleTaskMove_def optimistic_update_def
        move_task_def toString_7)
qed

lemma find_absent: "i \<notin> task_id ` set data \<Longrightarrow> find (\<lambda>x. task_id x = i) data = None"
  by (auto simp: find_None_iff)

text \<open>
  C9, as stated, fails: when the fetched list no longer has the task of the open detail
  view, \<open>fetchTasks\<close> finds no updated copy and leaves \<open>selectedTask\<close> and \<open>showDetail\<close>
  alone, so the panel stays open on the task as last fetched.
\<close>

theorem refresh_closes_detail_counterexample:
  "\<not> (\<forall>st data t. selectedTask st = Some t \<and> showDetail st \<and> task_id t \<notin> task_id ` set data
          \<longrightarrow> (\<forall>t'. page_detail (poll_refresh st (Fetched data) st) \<noteq> Some (t', True)))"
proof
  assume a: "\<forall>st data t. selectedTask st = Some t \<and> showDetail st \<and> task_id t \<notin> task_id ` set data
          \<longrightarrow> (\<forall>t'. page_detail (poll_refresh st (Fetched data) st) \<noteq> Some (t', True))"
  let ?t = "sample_task 7 ''review''"
  let ?st = "sample_page [?t] (Some ?t) True"
  have "selectedTask ?st = Some ?t \<and> showDetail ?st \<and> task_id ?t \<notin> task_id ` set []"
    by (simp add: sample_page_def)
  with a have "page_detail (poll_refresh ?st (Fetched []) ?st) \<noteq> Some (?t, True)"
    by blast
  moreover have "page_detail (poll_refresh ?st (Fetched []) ?st) = Some (?t, True)"
    by (simp add: page_detail_def TaskDetail_def poll_refresh_def fetchTasks_def
        selectedTaskId_def sample_page_def sample_task_def)
  ultimately show False by simp
qed

text \<open>
  The hypothesis on the selection below is needed: a refresh that was started
  while task 8 was selected and settles after the user has opened task 7 puts the
  fetched task 8 back as the selected task.
\<close>

lemma poll_refresh_stale_selection:
  "selectedTask
     (poll_refresh (sample_page [] (Some (sample_task 8 ''inbox'')) True)
        (Fetched [sample_task 8 ''done''])
        (sample_page [] (Some (sample_task 7 ''review'')) True))
   = Some (sample_task 8 ''done'')"
  by (simp add: poll_refresh_def fetchTasks_def selectedTaskId_def sample_page_def
      sample_task_def)

text \<open>
  C9, amended. Take a refresh started with the task of the detail view selected, the
  selection not having changed when the fetch settles. If the fetched list no longer has
  the id of that task, the refresh does not fail: it replaces the task list, clears the
  error and the loading flag, and leaves the detail view as it was, showing the selected
  task as last fetched and open if it was open.
\<close>

theorem refresh_without_selected_task:
  assumes "selectedTask st = Some t" and "task_id t \<notin> task_id ` set data"
    and "selectedTaskId st0 = selectedTaskId st"
  shows "poll_refresh st0 (Fetched data) st
           = st\<lparr>tasks := data, error := None, isLoading := False\<rparr>
         \<and> page_detail (poll_refresh st0 (Fetched data) st) = Some (t, showDetail st)
         \<and> page_detail (poll_refresh st0 (Fetched data) st) = page_detail st"
proof -
  have "selectedTaskId st0 = Some (task_id t)"
    using assms(1,3) by (simp add: selectedTaskId_def)
  then have "poll_refresh st0 (Fetched data) st
           = st\<lparr>tasks := data, error := None, isLoading := False\<rparr>"
    using assms(2) by (simp add: poll_refresh_def fetchTasks_def find_absent Let_def)
  then show ?thesis
    using assms(1) by (simp add: page_detail_def TaskDetail_def)
qed

theorem refresh_without_selected_task_witness:
  "selectedTask (sample_page [sample_task 7 ''review''] (Some (sample_task 7 ''review'')) True)
     = Some (sample_task 7 ''review'')
   \<and> task_id (sample_task 7 ''review'') \<notin> task_id ` set [sample_task 8 ''inbox'']
   \<and> poll_refresh
        (sample_page [sample_task 7 ''review''] (Some (sample_task 7 ''review'')) True)
        (Fetched [sample_task 8 ''inbox''])
        (sample_page [sample_task 7 ''review''] (Some (sample_task 7 ''review'')) True)
     = sample_page [sample_task 8 ''inbox''] (Some (sample_task 7 ''review'')) True"
proof -
  let ?st = "sample_page [sample_task 7 ''review''] (Some (sample_task 7 ''review'')) True"
  have sel: "selectedTask ?st = Some (sample_task 7 ''review'')"
    by (simp add: sample_page_def)
  have gone: "task_id (sample_task 7 ''review'') \<notin> task_id ` set [sample_task 8 ''inbox'']"
    by (simp add: sample_task_def)
  from refresh_without_selected_task [OF sel gone refl]
  have "poll_refresh ?st (Fetched [sample_task 8 ''inbox'']) ?st
          = ?st\<lparr>tasks := [sample_task 8 ''inbox''], error := None, isLoading := False\<rparr>"
    by blast
  then show ?thesis
    using sel gone by (simp add: sample_page_def)
qed








lemma bigint_in_signed_spaced: "bigint_in '' +1 '' = Inr 1" "bigint_in ''-12'' = Inr (- 12)"
  by (simp_all add: bigint_in_def pg_space_def unsigned_digits_def is_digit_def
      digits_value_def in_bigint_range_def)


lemma bigint_in_bounds:
  "bigint_in ''9223372036854775807'' = Inr 9223372036854775807"
  "bigint_in ''9223372036854775808'' = Inl ''22003''"
  "bigint_in ''-9223372036854775808'' = Inr (- 9223372036854775808)"
  "bigint_in ''abc'' = Inl ''22P02''"
  by (simp_all add: bigint_in_def pg_space_def unsigned_digits_def is_digit_def
      digits_value_def in_bigint_range_def)




lemma listed_before_total: "listed_before a b \<or> listed_before b a"
  by (auto simp: listed_before_def)

lemma listed_before_trans: "listed_before a b \<Longrightarrow> listed_before b c \<Longrightarrow> listed_before a c"
  by (auto simp: listed_before_def)

lemma mset_insert_row: "mset (insert_row r xs) = add_mset r (mset xs)"
  by (induction xs) simp_all

lemma set_insert_row: "set (insert_row r xs) = insert r (set xs)"
  by (induction xs) auto

lemma sorted_insert_row:
  "sorted_wrt listed_before xs \<Longrightarrow> sorted_wrt listed_before (insert_row r xs)"
proof (induction xs)
  case Nil
  show ?case by simp
next
  case (Cons x xs)
  show ?case
  proof (cases "listed_before r x")
    case True
    then have "\<forall>y\<in>set xs. listed_before r y"
      using Cons.prems listed_before_trans by auto
    with True Cons.prems show ?thesis by simp
  next
    case False
    then have "listed_before x r"
      using listed_before_total by blast
    with False Cons show ?thesis
      by (auto simp: set_insert_row)
  qed
qed

lemma mset_order_rows: "mset (order_rows rows) = mset rows"
  by (induction rows) (simp_all add: order_rows_def mset_insert_row)

lemma sorted_order_rows: "sorted_wrt listed_before (order_rows rows)"
  by (induction rows) (simp_all add: order_rows_def sorted_insert_row)

lemma priority_ranks:
  "priority_rank ''low'' = 0" "priority_rank ''medium'' = 1"
  "priority_rank ''high'' = 2" "priority_rank ''critical'' = 3"
  by (simp_all add: priority_rank_def TaskPriority_def)

lemma listTasks_rows: "listTasks rows = \<lparr>res_status = 200, res_json = Data (order_rows rows)\<rparr>"
  by (simp add: listTasks_def GET_route_def postgrest_GET_tasks_def res_ok_def)

lemma order_four:
  assumes "row_priority r1 = ''low''" "row_priority r2 = ''critical''"
    "row_priority r3 = ''medium''" "row_priority r4 = ''critical''"
    "row_created_at r1 < row_created_at r2" "row_created_at r2 < row_created_at r3"
    "row_created_at r3 < row_created_at r4"
  shows "order_rows [r1, r2, r3, r4] = [r4, r2, r3, r1]"
  using assms by (simp add: order_rows_def listed_before_def priority_ranks)

text \<open>
  C7. For every content of the table, \<open>listTasks\<close> answers 200 with the rows of the table,
  each as often as it is there, ordered so that of any two rows the earlier one has the
  higher priority, or the same priority and a \<open>created_at\<close> that is not earlier; the
  priorities rank critical > high > medium > low. In particular, four rows of priorities
  low, critical, medium, critical created at increasing instants come back as the later
  critical, the earlier critical, the medium and the low one.
\<close>

theorem listTasks_ordered:
  "(\<exists>rs. listTasks rows = \<lparr>res_status = 200, res_json = Data rs\<rparr>
          \<and> mset rs = mset rows
          \<and> sorted_wrt
               (\<lambda>a b. priority_rank (row_priority b) < priority_rank (row_priority a)
                      \<or> (priority_rank (row_priority a) = priority_rank (row_priority b)
                          \<and> row_created_at b \<le> row_created_at a)) rs)
   \<and> priority_rank ''low'' < priority_rank ''medium''
   \<and> priority_rank ''medium'' < priority_rank ''high''
   \<and> priority_rank ''high'' < priority_rank ''critical''
   \<and> (row_priority r1 = ''low'' \<and> row_priority r2 = ''critical''
        \<and> row_priority r3 = ''medium'' \<and> row_priority r4 = ''critical''
        \<and> row_created_at r1 < row_created_at r2 \<and> row_created_at r2 < row_created_at r3
        \<and> row_created_at r3 < row_created_at r4
      \<longrightarrow> listTasks [r1, r2, r3, r4] = \<lparr>res_status = 200, res_json = Data [r4, r2, r3, r1]\<rparr>)"
proof -
  have "(\<lambda>a b. priority_rank (row_priority b) < priority_rank (row_priority a)
                      \<or> (priority_rank (row_priority a) = priority_rank (row_priority b)
                          \<and> row_created_at b \<le> row_created_at a)) = listed_before"
    by (intro ext) (simp add: listed_before_def)
  then have "sorted_wrt
               (\<lambda>a b. priority_rank (row_priority b) < priority_rank (row_priority a)
                      \<or> (priority_rank (row_priority a) = priority_rank (row_priority b)
                          \<and> row_created_at b \<le> row_created_at a)) (order_rows rows)"
    using sorted_order_rows [of rows] by simp
  then have general: "\<exists>rs. listTasks rows = \<lparr>res_status = 200, res_json = Data rs\<rparr>
          \<and> mset rs = mset rows
          \<and> sorted_wrt
               (\<lambda>a b. priority_rank (row_priority b) < priority_rank (row_priority a)
                      \<or> (priority_rank (row_priority a) = priority_rank (row_priority b)
                          \<and> row_created_at b \<le> row_created_at a)) rs"
    using listTasks_rows [of rows] mset_order_rows [of rows] by blast
  show ?thesis
    using general by (simp add: priority_ranks listTasks_rows order_four)
qed

theorem listTasks_ordered_witness:
  "row_priority (sample_row 1 ''low'' 10) = ''low''
   \<and> row_priority (sample_row 2 ''critical'' 20) = ''critical''
   \<and> row_priority (sample_row 3 ''medium'' 30) = ''medium''
   \<and> row_priority (sample_row 4 ''critical'' 40) = ''critical''
   \<and> row_created_at (sample_row 1 ''low'' 10) < row_created_at (sample_row 2 ''critical'' 20)
   \<and> row_created_at (sample_row 2 ''critical'' 20) < row_created_at (sample_row 3 ''medium'' 30)
   \<and> row_created_at (sample_row 3 ''medium'' 30) < row_created_at (sample_row 4 ''critical'' 40)
   \<and> listTasks [sample_row 1 ''low'' 10, sample_row 2 ''critical'' 20,
                 sample_row 3 ''medium'' 30, sample_row 4 ''critical'' 40]
       = \<lparr>res_status = 200,
          res_json = Data [sample_row 4 ''critical'' 40, sample_row 2 ''critical'' 20,
                           sample_row 3 ''medium'' 30, sample_row 1 ''low'' 10]\<rparr>"
proof -
  have p: "row_priority (sample_row 1 ''low'' 10) = ''low''
   \<and> row_priority (sample_row 2 ''critical'' 20) = ''critical''
   \<and> row_priority (sample_row 3 ''medium'' 30) = ''medium''
   \<and> row_priority (sample_row 4 ''critical'' 40) = ''critical''
   \<and> row_created_at (sample_row 1 ''low'' 10) < row_created_at (sample_row 2 ''critical'' 20)
   \<and> row_created_at (sample_row 2 ''critical'' 20) < row_created_at (sample_row 3 ''medium'' 30)
   \<and> row_created_at (sample_row 3 ''medium'' 30) < row_created_at (sample_row 4 ''critical'' 40)"
    by (simp add: sample_row_def)
  have "listTasks [sample_row 1 ''low'' 10, sample_row 2 ''critical'' 20,
                 sample_row 3 ''medium'' 30, sample_row 4 ''critical'' 40]
       = \<lparr>res_status = 200,
          res_json = Data [sample_row 4 ''critical'' 40, sample_row 2 ''critical'' 20,
                           sample_row 3 ''medium'' 30, sample_row 1 ''low'' 10]\<rparr>"
    using p listTasks_ordered [of rows "sample_row 1 ''low'' 10" "sample_row 2 ''critical'' 20"
        "sample_row 3 ''medium'' 30" "sample_row 4 ''critical'' 40" for rows]
    by blast
  with p show ?thesis by blast
qed

end
